theory Spec2Isabelle
  imports Complex_Main "HOL-Library.Sublist"
begin

section \<open>JavaScript values used by the SDK\<close>

text \<open>
  Strings are \<^typ>\<open>string\<close>: one \<^typ>\<open>char\<close> per code unit. Header names and values
  are byte strings, so every code unit of a header is below 256.

  An optional property (\<^verbatim>\<open>key?: string\<close>) is an \<^typ>\<open>'a option\<close>: \<^term>\<open>None\<close> is
  \<^verbatim>\<open>undefined\<close>. A string is falsy when it is \<^verbatim>\<open>undefined\<close> or empty.
\<close>

definition falsy_string :: "string option \<Rightarrow> bool" where
  "falsy_string s = (case s of None \<Rightarrow> True | Some v \<Rightarrow> v = [])"

text \<open>\<^verbatim>\<open>a || d\<close> on an optional string \<^verbatim>\<open>a\<close> and a string \<^verbatim>\<open>d\<close>.\<close>

definition or_string :: "string option \<Rightarrow> string \<Rightarrow> string" where
  "or_string a d = (if falsy_string a then d else (case a of Some v \<Rightarrow> v | None \<Rightarrow> d))"

text \<open>
  A number is the mathematical value of a double, or one of the three values that are
  not finite. Rounding to the nearest double is left out (a decimal literal stands for
  its exact value), and \<^verbatim>\<open>-0\<close> is \<^verbatim>\<open>0\<close>.
\<close>

datatype number = Num rat | NaN | Infinity | NegInfinity

text \<open>The falsy numbers are \<^verbatim>\<open>0\<close> and \<^verbatim>\<open>NaN\<close>.\<close>

definition falsy_number :: "number option \<Rightarrow> bool" where
  "falsy_number a = (case a of None \<Rightarrow> True | Some n \<Rightarrow> n = Num 0 \<or> n = NaN)"

text \<open>\<^verbatim>\<open>a || d\<close> on an optional number \<^verbatim>\<open>a\<close> and a number \<^verbatim>\<open>d\<close>.\<close>

definition or_number :: "number option \<Rightarrow> number \<Rightarrow> number" where
  "or_number a d = (if falsy_number a then d else (case a of Some n \<Rightarrow> n | None \<Rightarrow> d))"

text \<open>
  \<^verbatim>\<open>Record<string, string>\<close>: a finite map from property names to strings. Assigning
  \<^verbatim>\<open>headers[k] = v\<close> is the map update, so a name occurs once; \<^verbatim>\<open>Object.assign(a, b)\<close>
  is \<^term>\<open>a ++ b\<close>.
\<close>

type_synonym headers = "string \<rightharpoonup> string"

text \<open>
  \<^verbatim>\<open>RequestMetadata\<close> (types.ts): string keys, values \<^verbatim>\<open>string | undefined\<close>. The
  list is what \<^verbatim>\<open>Object.entries\<close> enumerates, so its keys are distinct.
\<close>

type_synonym RequestMetadata = "(string \<times> string option) list"

section \<open>Built-in functions of the host language\<close>

subsection \<open>\<^verbatim>\<open>parseInt(string, 10)\<close> and \<^verbatim>\<open>parseFloat(string)\<close>\<close>

definition is_digit :: "char \<Rightarrow> bool" where
  "is_digit c = (48 \<le> (of_char c :: nat) \<and> (of_char c :: nat) \<le> 57)"

definition digit_val :: "char \<Rightarrow> nat" where
  "digit_val c = of_char c - 48"

definition digits_value :: "string \<Rightarrow> nat" where
  "digits_value ds = foldl (\<lambda>a c. 10 * a + digit_val c) 0 ds"

text \<open>
  The white space both functions skip at the start: tab, line feed, vertical tab, form
  feed, carriage return, space and no-break space (the white space and line terminator
  code units below 256).
\<close>

definition is_StrWhiteSpaceChar :: "char \<Rightarrow> bool" where
  "is_StrWhiteSpaceChar c = ((of_char c :: nat) \<in> {9, 10, 11, 12, 13, 32, 160})"

definition take_sign :: "string \<Rightarrow> bool \<times> string" where
  "take_sign s = (case s of
       [] \<Rightarrow> (False, [])
     | c # cs \<Rightarrow>
         if c = CHR ''-'' then (True, cs)
         else if c = CHR ''+'' then (False, cs)
         else (False, s))"

text \<open>
  Radix 10: leading white space, an optional sign, then the longest run of decimal
  digits; \<^verbatim>\<open>NaN\<close> when that run is empty. Whatever follows the digits is ignored.
\<close>

definition parseInt :: "string \<Rightarrow> number" where
  "parseInt string =
     (let (neg, s) = take_sign (dropWhile is_StrWhiteSpaceChar string);
          z = takeWhile is_digit s
      in if z = [] then NaN
         else Num (of_int ((if neg then - 1 else 1) * int (digits_value z))))"

text \<open>An exponent part counts only when a digit follows \<^verbatim>\<open>e\<close> and its sign.\<close>

definition take_exponent :: "string \<Rightarrow> int" where
  "take_exponent s = (case s of
       [] \<Rightarrow> 0
     | c # cs \<Rightarrow>
         if c = CHR ''e'' \<or> c = CHR ''E'' then
           (let (neg, r) = take_sign cs; ds = takeWhile is_digit r
            in if ds = [] then 0 else (if neg then - 1 else 1) * int (digits_value ds))
         else 0)"

definition scale10 :: "rat \<Rightarrow> int \<Rightarrow> rat" where
  "scale10 x e = (if 0 \<le> e then x * 10 ^ nat e else x / 10 ^ nat (- e))"

text \<open>
  Leading white space, then the longest prefix that is a decimal literal: an optional
  sign, then \<^verbatim>\<open>Infinity\<close>, or digits with an optional fraction and exponent, or a
  fraction that starts with the point. \<^verbatim>\<open>NaN\<close> when there is no such prefix.
\<close>

definition parseFloat :: "string \<Rightarrow> number" where
  "parseFloat string =
     (let (neg, s) = take_sign (dropWhile is_StrWhiteSpaceChar string) in
      if prefix ''Infinity'' s then (if neg then NegInfinity else Infinity)
      else
        let ip = takeWhile is_digit s;
            r1 = dropWhile is_digit s;
            has_dot = (case r1 of [] \<Rightarrow> False | c # _ \<Rightarrow> c = CHR ''.'');
            fp = (if has_dot then takeWhile is_digit (tl r1) else []);
            r2 = (if has_dot then dropWhile is_digit (tl r1) else r1)
        in if ip = [] \<and> fp = [] then NaN
           else
             let m = of_nat (digits_value ip) + of_nat (digits_value fp) / 10 ^ length fp;
                 v = scale10 m (take_exponent r2)
             in Num (if neg then - v else v))"

subsection \<open>\<^verbatim>\<open>JSON.parse(text)\<close>\<close>

text \<open>
  The value \<^verbatim>\<open>JSON.parse\<close> returns. A JSON string may hold any 16-bit code unit
  (through \<^verbatim>\<open>\uXXXX\<close>), so its code units are numbers. An object keeps its members in
  the order of the text.
\<close>

datatype json = JNull | JBool bool | JNum number | JStr "nat list" | JArr "json list"
  | JObj "(nat list \<times> json) list"

datatype json_error = SyntaxError

text \<open>JSON white space: tab, line feed, carriage return and space.\<close>

definition is_json_ws :: "char \<Rightarrow> bool" where
  "is_json_ws c = ((of_char c :: nat) \<in> {9, 10, 13, 32})"

definition skip_ws :: "string \<Rightarrow> string" where
  "skip_ws s = dropWhile is_json_ws s"

definition hex_val :: "char \<Rightarrow> nat option" where
  "hex_val c =
     (let n = (of_char c :: nat) in
      if 48 \<le> n \<and> n \<le> 57 then Some (n - 48)
      else if 65 \<le> n \<and> n \<le> 70 then Some (n - 55)
      else if 97 \<le> n \<and> n \<le> 102 then Some (n - 87)
      else None)"

definition hex4 :: "char \<Rightarrow> char \<Rightarrow> char \<Rightarrow> char \<Rightarrow> nat option" where
  "hex4 a b c d =
     (case (hex_val a, hex_val b, hex_val c, hex_val d) of
        (Some w, Some x, Some y, Some z) \<Rightarrow> Some (((w * 16 + x) * 16 + y) * 16 + z)
      | _ \<Rightarrow> None)"

text \<open>The character after a backslash, other than \<^verbatim>\<open>u\<close>, and the code unit it stands for.\<close>

definition json_escape :: "char \<Rightarrow> nat option" where
  "json_escape e =
     (if e = CHR 0x22 then Some 34
      else if e = CHR 0x5C then Some 92
      else if e = CHR ''/'' then Some 47
      else if e = CHR ''b'' then Some 8
      else if e = CHR ''f'' then Some 12
      else if e = CHR ''n'' then Some 10
      else if e = CHR ''r'' then Some 13
      else if e = CHR ''t'' then Some 9
      else None)"

definition cons_unit :: "nat \<Rightarrow> (nat list \<times> string) option \<Rightarrow> (nat list \<times> string) option" where
  "cons_unit u r = map_option (\<lambda>(us, rest). (u # us, rest)) r"

text \<open>
  The characters of a string after its opening quote, up to the closing quote: the code
  units, and the text after the closing quote. A control character (below 32) must be
  escaped.
\<close>

fun json_chars :: "string \<Rightarrow> (nat list \<times> string) option" where
  "json_chars [] = None"
| "json_chars (c # cs) =
     (if c = CHR 0x22 then Some ([], cs)
      else if c = CHR 0x5C then
        (case cs of
           [] \<Rightarrow> None
         | e # es \<Rightarrow>
             if e = CHR ''u'' then
               (case es of
                  h1 # h2 # h3 # h4 # r \<Rightarrow>
                    (case hex4 h1 h2 h3 h4 of
                       None \<Rightarrow> None
                     | Some u \<Rightarrow> cons_unit u (json_chars r))
                | _ \<Rightarrow> None)
             else
               (case json_escape e of
                  None \<Rightarrow> None
                | Some u \<Rightarrow> cons_unit u (json_chars es)))
      else if (of_char c :: nat) < 32 then None
      else cons_unit (of_char c) (json_chars cs))"

text \<open>
  A JSON number: an optional minus, \<^verbatim>\<open>0\<close> or a digit run that does not start with
  \<^verbatim>\<open>0\<close>, an optional fraction with at least one digit, an optional exponent with at
  least one digit.
\<close>

definition json_int :: "string \<Rightarrow> (string \<times> string) option" where
  "json_int s = (case s of
       [] \<Rightarrow> None
     | c # cs \<Rightarrow>
         if c = CHR ''0'' then Some ([c], cs)
         else if is_digit c then Some (c # takeWhile is_digit cs, dropWhile is_digit cs)
         else None)"

definition json_frac :: "string \<Rightarrow> (string \<times> string) option" where
  "json_frac s = (case s of
       [] \<Rightarrow> Some ([], s)
     | c # cs \<Rightarrow>
         if c = CHR ''.'' then
           (if takeWhile is_digit cs = [] then None
            else Some (takeWhile is_digit cs, dropWhile is_digit cs))
         else Some ([], s))"

definition json_exp :: "string \<Rightarrow> (int \<times> string) option" where
  "json_exp s = (case s of
       [] \<Rightarrow> Some (0, s)
     | c # cs \<Rightarrow>
         if c = CHR ''e'' \<or> c = CHR ''E'' then
           (let (neg, r) = take_sign cs; ds = takeWhile is_digit r
            in if ds = [] then None
               else Some ((if neg then - 1 else 1) * int (digits_value ds), dropWhile is_digit r))
         else Some (0, s))"

definition json_number :: "string \<Rightarrow> (number \<times> string) option" where
  "json_number s =
     (let neg = (case s of [] \<Rightarrow> False | c # _ \<Rightarrow> c = CHR ''-'');
          s0 = (if neg then tl s else s)
      in case json_int s0 of
           None \<Rightarrow> None
         | Some (ip, r1) \<Rightarrow>
             (case json_frac r1 of
                None \<Rightarrow> None
              | Some (fp, r2) \<Rightarrow>
                  (case json_exp r2 of
                     None \<Rightarrow> None
                   | Some (e, r3) \<Rightarrow>
                       let m = of_nat (digits_value ip) + of_nat (digits_value fp) / 10 ^ length fp;
                           v = scale10 m e
                       in Some (Num (if neg then - v else v), r3))))"

definition json_literal :: "string \<Rightarrow> (json \<times> string) option" where
  "json_literal s =
     (if prefix ''true'' s then Some (JBool True, drop 4 s)
      else if prefix ''false'' s then Some (JBool False, drop 5 s)
      else if prefix ''null'' s then Some (JNull, drop 4 s)
      else map_option (\<lambda>(n, r). (JNum n, r)) (json_number s))"

text \<open>
  A value with the white space around it, the elements of an array after its opening
  bracket, and the members of an object after its opening brace. Each returns what it
  read and the rest of the text. The first argument bounds the depth of the calls: every
  call uses one unit, and of two nested calls at least one reads a character, so twice
  the length of the text is enough; \<open>JSON_parse\<close> below starts with that, and
  \<open>JSON_parse_fuel\<close> proves that no text is refused for lack of it.
\<close>

fun json_value :: "nat \<Rightarrow> string \<Rightarrow> (json \<times> string) option"
  and json_elements :: "nat \<Rightarrow> string \<Rightarrow> (json list \<times> string) option"
  and json_members :: "nat \<Rightarrow> string \<Rightarrow> ((nat list \<times> json) list \<times> string) option"
where
  "json_value 0 s = None"
| "json_value (Suc n) s =
     (case skip_ws s of
        [] \<Rightarrow> None
      | c # cs \<Rightarrow>
          if c = CHR 0x22 then
            map_option (\<lambda>(u, r). (JStr u, skip_ws r)) (json_chars cs)
          else if c = CHR ''['' then
            (case skip_ws cs of
               [] \<Rightarrow> None
             | d # ds \<Rightarrow>
                 if d = CHR '']'' then Some (JArr [], skip_ws ds)
                 else map_option (\<lambda>(vs, r). (JArr vs, skip_ws r)) (json_elements n cs))
          else if c = CHR ''{'' then
            (case skip_ws cs of
               [] \<Rightarrow> None
             | d # ds \<Rightarrow>
                 if d = CHR ''}'' then Some (JObj [], skip_ws ds)
                 else map_option (\<lambda>(ms, r). (JObj ms, skip_ws r)) (json_members n cs))
          else map_option (\<lambda>(v, r). (v, skip_ws r)) (json_literal (c # cs)))"
| "json_elements 0 s = None"
| "json_elements (Suc n) s =
     (case json_value n s of
        None \<Rightarrow> None
      | Some (v, r) \<Rightarrow>
          (case r of
             [] \<Rightarrow> None
           | d # ds \<Rightarrow>
               if d = CHR '','' then map_option (\<lambda>(vs, r'). (v # vs, r')) (json_elements n ds)
               else if d = CHR '']'' then Some ([v], ds)
               else None))"
| "json_members 0 s = None"
| "json_members (Suc n) s =
     (case skip_ws s of
        [] \<Rightarrow> None
      | q # qs \<Rightarrow>
          if q = CHR 0x22 then
            (case json_chars qs of
               None \<Rightarrow> None
             | Some (k, r0) \<Rightarrow>
                 (case skip_ws r0 of
                    [] \<Rightarrow> None
                  | c # cs \<Rightarrow>
                      if c = CHR '':'' then
                        (case json_value n cs of
                           None \<Rightarrow> None
                         | Some (v, r) \<Rightarrow>
                             (case r of
                                [] \<Rightarrow> None
                              | d # ds \<Rightarrow>
                                  if d = CHR '','' then
                                    map_option (\<lambda>(ms, r'). ((k, v) # ms, r')) (json_members n ds)
                                  else if d = CHR ''}'' then Some ([(k, v)], ds)
                                  else None))
                      else None))
          else None)"

text \<open>The whole text must be one value; anything else is a \<^verbatim>\<open>SyntaxError\<close>.\<close>

definition JSON_parse :: "string \<Rightarrow> json_error + json" where
  "JSON_parse text =
     (case json_value (2 * length text + 2) text of
        None \<Rightarrow> Inl SyntaxError
      | Some (v, rest) \<Rightarrow> if rest = [] then Inr v else Inl SyntaxError)"

text \<open>\<^verbatim>\<open>`${n}`\<close> for a natural number \<^verbatim>\<open>n\<close>: its decimal digits.\<close>

fun decimal :: "nat \<Rightarrow> string" where
  "decimal n = (if n < 10 then [char_of (48 + n)] else decimal (n div 10) @ [char_of (48 + n mod 10)])"

declare decimal.simps [simp del]

section \<open>utils.ts\<close>

definition DEFAULT_TOKENLAY_BASE_URL :: string where
  "DEFAULT_TOKENLAY_BASE_URL = ''https://api.tokenlay.com''"

definition DEFAULT_PROVIDER_API_BASE :: string where
  "DEFAULT_PROVIDER_API_BASE = ''https://api.openai.com/v1''"

text \<open>
  \<^verbatim>\<open>for (const [key, value] of Object.entries(metadata))
    if (value !== undefined) headers[`x-tokenlay-${key}`] = value;\<close>
\<close>

definition metadataToHeaders :: "RequestMetadata \<Rightarrow> headers" where
  "metadataToHeaders metadata =
     fold (\<lambda>(key, value) headers.
             case value of
               Some v \<Rightarrow> headers(''x-tokenlay-'' @ key \<mapsto> v)
             | None \<Rightarrow> headers)
          metadata Map.empty"

text \<open>
  The parameter type of \<^verbatim>\<open>validateConfig\<close>:
  \<^verbatim>\<open>{ tokenlayKey?: string; providerApiKey?: string }\<close>. Any record that extends it is
  accepted, as any object with these two properties is.
\<close>

record credentials =
  tokenlayKey :: "string option"
  providerApiKey :: "string option"

text \<open>\<^verbatim>\<open>new Error(message)\<close>.\<close>

datatype js_error = Error string

definition validateConfig :: "'a credentials_scheme \<Rightarrow> js_error + unit" where
  "validateConfig config =
     (if falsy_string (tokenlayKey config) then
        Inl (Error ''tokenlayKey is required. Get your free key at https://tokenlay.com'')
      else if falsy_string (providerApiKey config) then
        Inl (Error ''providerApiKey is required. This should be your OpenAI API key or other provider key.'')
      else Inr ())"

text \<open>
  A property value of the object \<^verbatim>\<open>parseTokenlayHeaders\<close> returns, and the object: the
  properties of the object literal, in its order. A property whose value is
  \<^verbatim>\<open>undefined\<close> is still a property of the object.
\<close>

datatype js_value = VUndefined | VBool bool | VNumber number | VString string | VJson json

type_synonym js_object = "(string \<times> js_value) list"

definition string_or_undefined :: "string option \<Rightarrow> js_value" where
  "string_or_undefined a = (case a of None \<Rightarrow> VUndefined | Some v \<Rightarrow> VString v)"

text \<open>
  The properties are evaluated in the order of the literal. Only \<^verbatim>\<open>JSON.parse\<close> can
  throw, and it is the last one, so the call throws exactly when \<^verbatim>\<open>JSON.parse\<close> does.
  The cast \<^verbatim>\<open>as 'allow' | 'block' | 'warn' | 'queue'\<close> is erased at run time.
\<close>

definition parseTokenlayHeaders :: "headers \<Rightarrow> json_error + js_object" where
  "parseTokenlayHeaders headers =
     (let ruleId = string_or_undefined (headers ''x-tokenlay-rule-id'');
          ruleAction = VString (or_string (headers ''x-tokenlay-rule-action'') ''allow'');
          limitExceeded = VBool (headers ''x-tokenlay-limit-exceeded'' = Some ''true'');
          cost = VNumber (parseFloat (or_string (headers ''x-tokenlay-cost'') ''0''));
          tokensUsed = VNumber (parseInt (or_string (headers ''x-tokenlay-tokens-used'') ''0''));
          inputTokens = VNumber (parseInt (or_string (headers ''x-tokenlay-input-tokens'') ''0''));
          outputTokens = VNumber (parseInt (or_string (headers ''x-tokenlay-output-tokens'') ''0''));
          duration = VNumber (parseInt (or_string (headers ''x-tokenlay-duration'') ''0''))
      in case (case headers ''x-tokenlay-warnings'' of
                 None \<Rightarrow> Inr VUndefined
               | Some w \<Rightarrow> if w = [] then Inr VUndefined else map_sum id VJson (JSON_parse w))
         of
           Inl e \<Rightarrow> Inl e
         | Inr warnings \<Rightarrow>
             Inr [(''ruleId'', ruleId), (''ruleAction'', ruleAction),
                  (''limitExceeded'', limitExceeded), (''cost'', cost),
                  (''tokensUsed'', tokensUsed), (''inputTokens'', inputTokens),
                  (''outputTokens'', outputTokens), (''duration'', duration),
                  (''warnings'', warnings)])"

text \<open>
  \<^verbatim>\<open>s.replace(/\/$/, '')\<close>: without the multiline flag \<^verbatim>\<open>$\<close> matches at the end of
  the input only, so the last character goes when it is a slash.
\<close>

definition strip_trailing_slash :: "string \<Rightarrow> string" where
  "strip_trailing_slash s = (if s \<noteq> [] \<and> last s = CHR ''/'' then butlast s else s)"

text \<open>\<^verbatim>\<open>s.replace(/^\//, '')\<close>: the first character goes when it is a slash.\<close>

definition strip_leading_slash :: "string \<Rightarrow> string" where
  "strip_leading_slash s = (case s of [] \<Rightarrow> [] | c # cs \<Rightarrow> if c = CHR ''/'' then cs else s)"

definition buildTokenlayUrl :: "string \<Rightarrow> string \<Rightarrow> string" where
  "buildTokenlayUrl baseUrl endpoint =
     (let cleanBase = strip_trailing_slash baseUrl;
          cleanEndpoint = strip_leading_slash endpoint
      in cleanBase @ ''/v1/'' @ cleanEndpoint)"

section \<open>types.ts and client.ts\<close>

text \<open>
  \<^verbatim>\<open>TokenlayOpenAIOptions\<close>. The interface declares both keys as strings; the
  constructor hands the object to \<^verbatim>\<open>validateConfig\<close>, whose parameter leaves both
  optional, and the tests pass empty strings.
\<close>

record TokenlayOpenAIOptions = credentials +
  providerApiBase :: "string option"
  tokenlayBaseUrl :: "string option"
  metadata :: "RequestMetadata option"
  extraHeaders :: "headers option"
  timeout :: "number option"
  maxRetries :: "number option"

text \<open>The private field \<^verbatim>\<open>config\<close>: every optional field but the last two is resolved.\<close>

record Config =
  config_tokenlayKey :: string
  config_providerApiKey :: string
  config_providerApiBase :: string
  config_tokenlayBaseUrl :: string
  config_timeout :: number
  config_maxRetries :: number
  config_metadata :: "RequestMetadata option"
  config_extraHeaders :: "headers option"

text \<open>
  The wrapped SDK client, as the options \<^verbatim>\<open>new OpenAI({...})\<close> receives: what the
  SDK does with them is outside this repository.
\<close>

record OpenAI =
  apiKey :: string
  baseURL :: string
  openai_timeout :: number
  openai_maxRetries :: number
  defaultHeaders :: headers

record TokenlayOpenAI =
  config :: Config
  openaiClient :: OpenAI

text \<open>
  A required string read from the options. After \<^verbatim>\<open>validateConfig\<close> has passed, the
  property is a non-empty string, so the second case is never taken.
\<close>

definition required_string :: "string option \<Rightarrow> string" where
  "required_string a = (case a of Some v \<Rightarrow> v | None \<Rightarrow> [])"

definition buildDefaultHeaders :: "Config \<Rightarrow> headers" where
  "buildDefaultHeaders c =
     (let headers = [''x-tokenlay-provider-key'' \<mapsto> config_providerApiKey c,
                     ''x-tokenlay-provider-base'' \<mapsto> config_providerApiBase c];
          headers = (case config_metadata c of
                       Some m \<Rightarrow> headers ++ metadataToHeaders m
                     | None \<Rightarrow> headers);
          headers = (case config_extraHeaders c of
                       Some extra \<Rightarrow> headers ++ extra
                     | None \<Rightarrow> headers)
      in headers)"

definition resolve_config :: "TokenlayOpenAIOptions \<Rightarrow> Config" where
  "resolve_config options =
     \<lparr> config_tokenlayKey = required_string (tokenlayKey options),
       config_providerApiKey = required_string (providerApiKey options),
       config_providerApiBase = or_string (providerApiBase options) DEFAULT_PROVIDER_API_BASE,
       config_tokenlayBaseUrl = or_string (tokenlayBaseUrl options) DEFAULT_TOKENLAY_BASE_URL,
       config_timeout = or_number (timeout options) (Num 60000),
       config_maxRetries = or_number (maxRetries options) (Num 2),
       config_metadata = metadata options,
       config_extraHeaders = extraHeaders options \<rparr>"

definition new_OpenAI :: "Config \<Rightarrow> OpenAI" where
  "new_OpenAI c =
     \<lparr> apiKey = config_tokenlayKey c,
       baseURL = buildTokenlayUrl (config_tokenlayBaseUrl c) [],
       openai_timeout = config_timeout c,
       openai_maxRetries = config_maxRetries c,
       defaultHeaders = buildDefaultHeaders c \<rparr>"

text \<open>
  The constructor. The second argument and the second result are the wrapped SDK clients
  created so far, oldest first: \<^verbatim>\<open>new OpenAI\<close> adds one. A constructor that throws
  returns no object.
\<close>

definition TokenlayOpenAI_constructor ::
    "TokenlayOpenAIOptions \<Rightarrow> OpenAI list \<Rightarrow> (js_error + TokenlayOpenAI) \<times> OpenAI list" where
  "TokenlayOpenAI_constructor options created =
     (case validateConfig options of
        Inl e \<Rightarrow> (Inl e, created)
      | Inr _ \<Rightarrow>
          let c = resolve_config options;
              client = new_OpenAI c
          in (Inr \<lparr> config = c, openaiClient = client \<rparr>, created @ [client]))"

text \<open>\<^verbatim>\<open>if (!metadata) return {}; return metadataToHeaders(metadata);\<close>\<close>

definition buildRequestHeaders :: "RequestMetadata option \<Rightarrow> headers" where
  "buildRequestHeaders m = (case m of None \<Rightarrow> Map.empty | Some md \<Rightarrow> metadataToHeaders md)"

text \<open>
  \<^verbatim>\<open>TokenlayChatCompletionCreateParams\<close>: the per-request metadata and the remaining
  properties, which go to the wrapped client as they are.
\<close>

record 'p TokenlayChatCompletionCreateParams =
  params_metadata :: "RequestMetadata option"
  openaiParams :: 'p

text \<open>
  The response object of the wrapped client: the provider's payload, the property
  \<^verbatim>\<open>_request_id\<close> (\<^term>\<open>None\<close> when it is \<^verbatim>\<open>undefined\<close> or \<^verbatim>\<open>null\<close>) and the property
  \<^verbatim>\<open>_tokenlay\<close> (\<^term>\<open>None\<close> when the object has none).
\<close>

record 'b ChatCompletion =
  payload :: 'b
  request_id :: "string option"
  tokenlay :: "js_object option"

text \<open>
  What the proxy answers to one call: the HTTP response headers and the response object
  the wrapped client resolves to. The promise \<^verbatim>\<open>create\<close> awaits gives the object only.
\<close>

record 'b ProxyReply =
  reply_headers :: headers
  reply_object :: "'b ChatCompletion"

text \<open>
  \<^verbatim>\<open>this.openaiClient.chat.completions.create(openaiParams, { headers })\<close>: the
  wrapped client, the payload and the call-scoped headers give a rejection or a reply.
\<close>

type_synonym ('p, 'b, 'e) wrapped_create =
  "OpenAI \<Rightarrow> 'p \<Rightarrow> headers \<Rightarrow> 'e + 'b ProxyReply"

text \<open>
  The object literal \<^verbatim>\<open>create\<close> stores under \<^verbatim>\<open>_tokenlay\<close>. The source says of it:
  \<^verbatim>\<open>For now, we'll add empty metadata - this would need to be populated by actual
  headers from the response in a real implementation\<close>.
\<close>

definition placeholder_metadata :: js_object where
  "placeholder_metadata =
     [(''ruleId'', VUndefined), (''ruleAction'', VString ''allow''),
      (''limitExceeded'', VBool False), (''cost'', VNumber (Num 0)),
      (''tokensUsed'', VNumber (Num 0)), (''inputTokens'', VNumber (Num 0)),
      (''outputTokens'', VNumber (Num 0)), (''duration'', VNumber (Num 0))]"

text \<open>
  \<^verbatim>\<open>chat.completions.create\<close>. A rejection of the wrapped call is rethrown as it is.
\<close>

definition chat_completions_create ::
    "('p, 'b, 'e) wrapped_create \<Rightarrow> TokenlayOpenAI \<Rightarrow> 'p TokenlayChatCompletionCreateParams
       \<Rightarrow> 'e + 'b ChatCompletion" where
  "chat_completions_create wrapped this params =
     (let requestHeaders = buildRequestHeaders (params_metadata params) in
      case wrapped (openaiClient this) (openaiParams params) requestHeaders of
        Inl e \<Rightarrow> Inl e
      | Inr reply \<Rightarrow>
          let response = reply_object reply in
          Inr (if \<not> falsy_string (request_id response)
               then response\<lparr> tokenlay := Some placeholder_metadata \<rparr>
               else response))"

text \<open>\<^verbatim>\<open>return response._tokenlay || null;\<close> (\<^term>\<open>None\<close> is \<^verbatim>\<open>null\<close>; an object is truthy).\<close>

definition getTokenlayMetadata :: "'b ChatCompletion \<Rightarrow> js_object option" where
  "getTokenlayMetadata response = (case tokenlay response of Some m \<Rightarrow> Some m | None \<Rightarrow> None)"

text \<open>
  \<^verbatim>\<open>fetch(url, { headers })\<close>: the request (the method is \<^verbatim>\<open>GET\<close> when none is
  given), and what the promise settles to. The three properties of the response are the
  ones \<^verbatim>\<open>healthCheck\<close> reads.
\<close>

record FetchRequest =
  url :: string
  http_method :: string
  request_headers :: headers

record FetchResponse =
  ok :: bool
  status :: nat
  statusText :: string

text \<open>A thrown value: an instance of \<^verbatim>\<open>Error\<close> with its message, or anything else.\<close>

datatype thrown = ErrorInstance string | OtherValue

datatype fetch_outcome = Resolved FetchResponse | Rejected thrown

text \<open>The result of \<^verbatim>\<open>healthCheck\<close>: \<^verbatim>\<open>{ status: 'ok' | 'error'; message?: string }\<close>.\<close>

record HealthResult =
  health_status :: string
  message :: "string option"

definition healthCheck_request :: "TokenlayOpenAI \<Rightarrow> FetchRequest" where
  "healthCheck_request this =
     \<lparr> url = buildTokenlayUrl (config_tokenlayBaseUrl (config this)) ''health'',
       http_method = ''GET'',
       request_headers = [''Authorization'' \<mapsto> ''Bearer '' @ config_tokenlayKey (config this)] \<rparr>"

text \<open>The \<^verbatim>\<open>try\<close> block: \<^term>\<open>Inl\<close> is a value thrown inside it.\<close>

definition healthCheck_try :: "(FetchRequest \<Rightarrow> fetch_outcome) \<Rightarrow> TokenlayOpenAI \<Rightarrow> thrown + HealthResult" where
  "healthCheck_try fetch this =
     (case fetch (healthCheck_request this) of
        Rejected error \<Rightarrow> Inl error
      | Resolved response \<Rightarrow>
          if ok response then Inr \<lparr> health_status = ''ok'', message = None \<rparr>
          else Inr \<lparr> health_status = ''error'',
                     message = Some (''HTTP '' @ decimal (status response) @ '': '' @ statusText response) \<rparr>)"

text \<open>The \<^verbatim>\<open>catch\<close> block.\<close>

definition healthCheck_catch :: "thrown \<Rightarrow> HealthResult" where
  "healthCheck_catch error =
     \<lparr> health_status = ''error'',
       message = Some (case error of ErrorInstance m \<Rightarrow> m | OtherValue \<Rightarrow> ''Unknown error'') \<rparr>"

text \<open>\<^verbatim>\<open>healthCheck\<close>: \<^term>\<open>Inl\<close> would be a rejection of the promise it returns.\<close>

definition healthCheck :: "(FetchRequest \<Rightarrow> fetch_outcome) \<Rightarrow> TokenlayOpenAI \<Rightarrow> thrown + HealthResult" where
  "healthCheck fetch this =
     (case healthCheck_try fetch this of
        Inl error \<Rightarrow> Inr (healthCheck_catch error)
      | Inr result \<Rightarrow> Inr result)"

text \<open>Reading a property of an object: \<^verbatim>\<open>obj.name\<close> is \<^verbatim>\<open>undefined\<close> when there is none.\<close>

definition property :: "js_object \<Rightarrow> string \<Rightarrow> js_value" where
  "property obj name = (case map_of obj name of Some v \<Rightarrow> v | None \<Rightarrow> VUndefined)"

section \<open>Inputs taken from tests/client.test.ts\<close>

text \<open>
  \<^verbatim>\<open>new TokenlayOpenAI({ tokenlayKey: 'tk_test_123', providerApiKey: 'sk-test-456' })\<close>
  and the object a successful construction returns for it.
\<close>

definition test_options :: TokenlayOpenAIOptions where
  "test_options =
     \<lparr> tokenlayKey = Some ''tk_test_123'', providerApiKey = Some ''sk-test-456'',
       providerApiBase = None, tokenlayBaseUrl = None, metadata = None,
       extraHeaders = None, timeout = None, maxRetries = None \<rparr>"

definition test_client :: TokenlayOpenAI where
  "test_client =
     \<lparr> config = resolve_config test_options,
       openaiClient = new_OpenAI (resolve_config test_options) \<rparr>"

text \<open>
  The response object of the mocked SDK call (\<^verbatim>\<open>_request_id: 'req_test_123'\<close>), with
  the payload left out.
\<close>

definition test_response :: "unit ChatCompletion" where
  "test_response = \<lparr> payload = (), request_id = Some ''req_test_123'', tokenlay = None \<rparr>"

section \<open>The bound of the JSON reader\<close>

lemma skip_ws_length: "length (skip_ws s) \<le> length s"
  by (simp add: skip_ws_def length_dropWhile_le)

lemma skip_ws_Cons_length: "skip_ws s = c # cs \<Longrightarrow> length cs < length s"
  using skip_ws_length [of s] by simp

lemma cons_unit_Some:
  "cons_unit u x = Some (us, r) \<Longrightarrow> \<exists>us'. x = Some (us', r)"
  by (cases x) (auto simp: cons_unit_def)

lemma json_chars_length: "json_chars s = Some (u, r) \<Longrightarrow> length r < length s"
proof (induction s arbitrary: u r rule: length_induct)
  case (1 s)
  have step: "length r < length s"
    if "length t < length s" and "cons_unit w (json_chars t) = Some (u, r)" for t w
  proof -
    from that(2) obtain us' where "json_chars t = Some (us', r)"
      by (blast dest: cons_unit_Some)
    with "1.IH" that(1) have "length r < length t" by blast
    with that(1) show ?thesis by simp
  qed
  show ?case
  proof (cases s)
    case Nil
    with "1.prems" show ?thesis by simp
  next
    case (Cons c cs)
    with "1.prems" have
      "r = cs \<or> (\<exists>t w. length t < length s \<and> cons_unit w (json_chars t) = Some (u, r))"
      by (auto split: if_splits list.splits option.splits)
    with Cons step show ?thesis by auto
  qed
qed

lemma take_sign_length: "take_sign s = (b, r) \<Longrightarrow> length r \<le> length s"
  by (auto simp: take_sign_def split: list.splits if_splits)

lemma json_int_length: "json_int s = Some (ip, r) \<Longrightarrow> length r < length s"
  by (auto simp: json_int_def split: list.splits if_splits
        intro: le_imp_less_Suc length_dropWhile_le)

lemma json_frac_length: "json_frac s = Some (fp, r) \<Longrightarrow> length r \<le> length s"
  by (auto simp: json_frac_def split: list.splits if_splits
        intro: le_SucI length_dropWhile_le)

lemma json_exp_length: "json_exp s = Some (e, r) \<Longrightarrow> length r \<le> length s"
proof (cases s)
  case Nil
  assume "json_exp s = Some (e, r)"
  with Nil show ?thesis by (simp add: json_exp_def)
next
  case (Cons c cs)
  assume a: "json_exp s = Some (e, r)"
  obtain b t where t: "take_sign cs = (b, t)" by (cases "take_sign cs")
  then have "length t \<le> length cs" by (rule take_sign_length)
  moreover have "length (dropWhile is_digit t) \<le> length t" by (rule length_dropWhile_le)
  ultimately show ?thesis
    using a Cons t by (auto simp: json_exp_def Let_def split: if_splits)
qed

lemma json_number_length: "json_number s = Some (n, r) \<Longrightarrow> length r < length s"
proof -
  assume a: "json_number s = Some (n, r)"
  define s0 where "s0 = (if (case s of [] \<Rightarrow> False | c # _ \<Rightarrow> c = CHR ''-'') then tl s else s)"
  have s0: "length s0 \<le> length s" by (simp add: s0_def)
  from a obtain ip r1 fp r2 e where
    i: "json_int s0 = Some (ip, r1)" and f: "json_frac r1 = Some (fp, r2)"
    and x: "json_exp r2 = Some (e, r)"
    unfolding json_number_def Let_def s0_def [symmetric]
    by (auto split: option.splits)
  from i f x s0 show ?thesis
    by (auto dest!: json_int_length json_frac_length json_exp_length)
qed

lemma json_literal_length: "json_literal s = Some (v, r) \<Longrightarrow> length r < length s"
  by (auto simp: json_literal_def prefix_def split: if_splits dest: json_number_length)

lemma json_value_step:
  assumes E: "\<And>s vs r. json_elements n s = Some (vs, r) \<Longrightarrow>
                length r < length s \<and>
                (\<forall>m. 2 * length s \<le> m + 2 * length r \<longrightarrow> json_elements m s = Some (vs, r))"
    and M: "\<And>s ms r. json_members n s = Some (ms, r) \<Longrightarrow>
                length r < length s \<and>
                (\<forall>m. 2 * length s \<le> m + 2 * length r \<longrightarrow> json_members m s = Some (ms, r))"
    and a: "json_value (Suc n) s = Some (v, r)"
  shows "length r < length s \<and>
         (\<forall>m. 2 * length s \<le> m + 2 * length r + 1 \<longrightarrow> json_value m s = Some (v, r))"
proof -
  from a obtain c cs where sk: "skip_ws s = c # cs"
    by (cases "skip_ws s") simp_all
  then have lcs: "length cs < length s" by (rule skip_ws_Cons_length)
  consider
      (str) "c = CHR 0x22"
    | (arr) "c \<noteq> CHR 0x22" "c = CHR ''[''"
    | (obj) "c \<noteq> CHR 0x22" "c \<noteq> CHR ''[''" "c = CHR ''{''"
    | (lit) "c \<noteq> CHR 0x22" "c \<noteq> CHR ''[''" "c \<noteq> CHR ''{''"
    by blast
  then show ?thesis
  proof cases
    case str
    with a sk obtain u r0 where c: "json_chars cs = Some (u, r0)"
      and v: "v = JStr u" and r: "r = skip_ws r0"
      by auto
    from c have "length r0 < length cs" by (rule json_chars_length)
    with r skip_ws_length [of r0] lcs have lr: "length r + 2 \<le> length s" by simp
    have "json_value m s = Some (v, r)" if "2 * length s \<le> m + 2 * length r + 1" for m
    proof -
      from that lr obtain m' where "m = Suc m'" by (cases m) auto
      with sk str c v r show ?thesis by simp
    qed
    with lr show ?thesis by simp
  next
    case arr
    from a sk arr obtain d ds where sk2: "skip_ws cs = d # ds"
      by (cases "skip_ws cs") simp_all
    then have lds: "length ds < length cs" by (rule skip_ws_Cons_length)
    show ?thesis
    proof (cases "d = CHR '']''")
      case True
      with a sk arr sk2 have v: "v = JArr []" and r: "r = skip_ws ds" by simp_all
      from r skip_ws_length [of ds] lds lcs have lr: "length r + 2 \<le> length s" by simp
      have "json_value m s = Some (v, r)" if "2 * length s \<le> m + 2 * length r + 1" for m
      proof -
        from that lr obtain m' where "m = Suc m'" by (cases m) auto
        with sk arr sk2 True v r show ?thesis by simp
      qed
      with lr show ?thesis by simp
    next
      case False
      with a sk arr sk2 obtain vs r0 where e: "json_elements n cs = Some (vs, r0)"
        and v: "v = JArr vs" and r: "r = skip_ws r0"
        by auto
      from E [OF e] have l0: "length r0 < length cs"
        and e': "\<And>m. 2 * length cs \<le> m + 2 * length r0 \<Longrightarrow> json_elements m cs = Some (vs, r0)"
        by simp_all
      from r skip_ws_length [of r0] l0 lcs have lr: "length r + 2 \<le> length s"
        and lr0: "length r \<le> length r0" by simp_all
      have "json_value m s = Some (v, r)" if "2 * length s \<le> m + 2 * length r + 1" for m
      proof -
        from that lr obtain m' where m: "m = Suc m'" by (cases m) auto
        with that lcs lr0 have "2 * length cs \<le> m' + 2 * length r0" by simp
        then have "json_elements m' cs = Some (vs, r0)" by (rule e')
        with m sk arr sk2 False v r show ?thesis by simp
      qed
      with lr show ?thesis by simp
    qed
  next
    case obj
    from a sk obj obtain d ds where sk2: "skip_ws cs = d # ds"
      by (cases "skip_ws cs") simp_all
    then have lds: "length ds < length cs" by (rule skip_ws_Cons_length)
    show ?thesis
    proof (cases "d = CHR ''}''")
      case True
      with a sk obj sk2 have v: "v = JObj []" and r: "r = skip_ws ds" by simp_all
      from r skip_ws_length [of ds] lds lcs have lr: "length r + 2 \<le> length s" by simp
      have "json_value m s = Some (v, r)" if "2 * length s \<le> m + 2 * length r + 1" for m
      proof -
        from that lr obtain m' where "m = Suc m'" by (cases m) auto
        with sk obj sk2 True v r show ?thesis by simp
      qed
      with lr show ?thesis by simp
    next
      case False
      with a sk obj sk2 obtain ms r0 where e: "json_members n cs = Some (ms, r0)"
        and v: "v = JObj ms" and r: "r = skip_ws r0"
        by auto
      from M [OF e] have l0: "length r0 < length cs"
        and e': "\<And>m. 2 * length cs \<le> m + 2 * length r0 \<Longrightarrow> json_members m cs = Some (ms, r0)"
        by simp_all
      from r skip_ws_length [of r0] l0 lcs have lr: "length r + 2 \<le> length s"
        and lr0: "length r \<le> length r0" by simp_all
      have "json_value m s = Some (v, r)" if "2 * length s \<le> m + 2 * length r + 1" for m
      proof -
        from that lr obtain m' where m: "m = Suc m'" by (cases m) auto
        with that lcs lr0 have "2 * length cs \<le> m' + 2 * length r0" by simp
        then have "json_members m' cs = Some (ms, r0)" by (rule e')
        with m sk obj sk2 False v r show ?thesis by simp
      qed
      with lr show ?thesis by simp
    qed
  next
    case lit
    with a sk obtain r0 where c: "json_literal (c # cs) = Some (v, r0)" and r: "r = skip_ws r0"
      by auto
    from c have "length r0 < length (c # cs)" by (rule json_literal_length)
    with sk skip_ws_length [of s] have "length r0 < length s" by (metis le_trans not_le)
    with r skip_ws_length [of r0] have lr: "length r < length s" by simp
    have "json_value m s = Some (v, r)" if "2 * length s \<le> m + 2 * length r + 1" for m
    proof -
      from that lr obtain m' where "m = Suc m'" by (cases m) auto
      with sk lit c r show ?thesis by simp
    qed
    with lr show ?thesis by simp
  qed
qed

lemma json_elements_step:
  assumes V: "\<And>s v r. json_value n s = Some (v, r) \<Longrightarrow>
                length r < length s \<and>
                (\<forall>m. 2 * length s \<le> m + 2 * length r + 1 \<longrightarrow> json_value m s = Some (v, r))"
    and E: "\<And>s vs r. json_elements n s = Some (vs, r) \<Longrightarrow>
                length r < length s \<and>
                (\<forall>m. 2 * length s \<le> m + 2 * length r \<longrightarrow> json_elements m s = Some (vs, r))"
    and a: "json_elements (Suc n) s = Some (vs, r)"
  shows "length r < length s \<and>
         (\<forall>m. 2 * length s \<le> m + 2 * length r \<longrightarrow> json_elements m s = Some (vs, r))"
proof -
  from a obtain v r1 where jv: "json_value n s = Some (v, r1)"
    by (cases "json_value n s") auto
  from V [OF jv] have l1: "length r1 < length s"
    and v': "\<And>m. 2 * length s \<le> m + 2 * length r1 + 1 \<Longrightarrow> json_value m s = Some (v, r1)"
    by simp_all
  from a jv obtain d ds where r1: "r1 = d # ds"
    by (cases r1) simp_all
  show ?thesis
  proof (cases "d = CHR '',''")
    case True
    with a jv r1 obtain vs' where e: "json_elements n ds = Some (vs', r)" and vs: "vs = v # vs'"
      by auto
    from E [OF e] have l: "length r < length ds"
      and e': "\<And>m. 2 * length ds \<le> m + 2 * length r \<Longrightarrow> json_elements m ds = Some (vs', r)"
      by simp_all
    from l l1 r1 have lr: "length r + 2 \<le> length r1" "length r < length s" by simp_all
    have "json_elements m s = Some (vs, r)" if "2 * length s \<le> m + 2 * length r" for m
    proof -
      from that lr obtain m' where m: "m = Suc m'" by (cases m) auto
      from m that lr have "2 * length s \<le> m' + 2 * length r1 + 1" by simp
      then have 1: "json_value m' s = Some (v, r1)" by (rule v')
      from m that l1 r1 have "2 * length ds \<le> m' + 2 * length r" by simp
      then have 2: "json_elements m' ds = Some (vs', r)" by (rule e')
      from m 1 2 r1 True vs show ?thesis by simp
    qed
    with lr show ?thesis by simp
  next
    case False
    with a jv r1 have d: "d = CHR '']''" and vs: "vs = [v]" and r: "r = ds"
      by (auto split: if_splits)
    from r r1 l1 have lr: "length r < length s" "length r1 = Suc (length r)" by simp_all
    have "json_elements m s = Some (vs, r)" if "2 * length s \<le> m + 2 * length r" for m
    proof -
      from that lr obtain m' where m: "m = Suc m'" by (cases m) auto
      from m that lr have "2 * length s \<le> m' + 2 * length r1 + 1" by simp
      then have "json_value m' s = Some (v, r1)" by (rule v')
      with m r1 d vs r show ?thesis by simp
    qed
    with lr show ?thesis by simp
  qed
qed

lemma json_members_step:
  assumes V: "\<And>s v r. json_value n s = Some (v, r) \<Longrightarrow>
                length r < length s \<and>
                (\<forall>m. 2 * length s \<le> m + 2 * length r + 1 \<longrightarrow> json_value m s = Some (v, r))"
    and M: "\<And>s ms r. json_members n s = Some (ms, r) \<Longrightarrow>
                length r < length s \<and>
                (\<forall>m. 2 * length s \<le> m + 2 * length r \<longrightarrow> json_members m s = Some (ms, r))"
    and a: "json_members (Suc n) s = Some (ms, r)"
  shows "length r < length s \<and>
         (\<forall>m. 2 * length s \<le> m + 2 * length r \<longrightarrow> json_members m s = Some (ms, r))"
proof -
  from a obtain q qs where sk: "skip_ws s = q # qs"
    by (cases "skip_ws s") simp_all
  then have lqs: "length qs < length s" by (rule skip_ws_Cons_length)
  from a sk have q: "q = CHR 0x22" by (auto split: if_splits)
  from a sk q obtain k r0 where jc: "json_chars qs = Some (k, r0)"
    by (cases "json_chars qs") auto
  then have l0: "length r0 < length qs" by (rule json_chars_length)
  from a sk q jc obtain c cs where sk2: "skip_ws r0 = c # cs"
    by (cases "skip_ws r0") simp_all
  then have lcs: "length cs < length r0" by (rule skip_ws_Cons_length)
  from a sk q jc sk2 have c: "c = CHR '':''" by (auto split: if_splits)
  from a sk q jc sk2 c obtain v r1 where jv: "json_value n cs = Some (v, r1)"
    by (cases "json_value n cs") auto
  from V [OF jv] have l1: "length r1 < length cs"
    and v': "\<And>m. 2 * length cs \<le> m + 2 * length r1 + 1 \<Longrightarrow> json_value m cs = Some (v, r1)"
    by simp_all
  from a sk q jc sk2 c jv obtain d ds where r1: "r1 = d # ds"
    by (cases r1) simp_all
  from lqs l0 lcs have lcs': "length cs + 3 \<le> length s" by simp
  show ?thesis
  proof (cases "d = CHR '',''")
    case True
    with a sk q jc sk2 c jv r1 obtain ms' where e: "json_members n ds = Some (ms', r)"
      and ms: "ms = (k, v) # ms'"
      by auto
    from M [OF e] have l: "length r < length ds"
      and e': "\<And>m. 2 * length ds \<le> m + 2 * length r \<Longrightarrow> json_members m ds = Some (ms', r)"
      by simp_all
    from l l1 r1 lcs' have lr: "length r + 2 \<le> length r1" "length r < length s" by simp_all
    have "json_members m s = Some (ms, r)" if "2 * length s \<le> m + 2 * length r" for m
    proof -
      from that lr obtain m' where m: "m = Suc m'" by (cases m) auto
      from m that lr lcs' have "2 * length cs \<le> m' + 2 * length r1 + 1" by simp
      then have 1: "json_value m' cs = Some (v, r1)" by (rule v')
      from m that l1 r1 lcs' have "2 * length ds \<le> m' + 2 * length r" by simp
      then have 2: "json_members m' ds = Some (ms', r)" by (rule e')
      from m 1 2 sk q jc sk2 c r1 True ms show ?thesis by simp
    qed
    with lr show ?thesis by simp
  next
    case False
    with a sk q jc sk2 c jv r1 have d: "d = CHR ''}''" and ms: "ms = [(k, v)]" and r: "r = ds"
      by (auto split: if_splits)
    from r r1 l1 lcs' have lr: "length r < length s" "length r1 = Suc (length r)" by simp_all
    have "json_members m s = Some (ms, r)" if "2 * length s \<le> m + 2 * length r" for m
    proof -
      from that lr obtain m' where m: "m = Suc m'" by (cases m) auto
      from m that lr lcs' have "2 * length cs \<le> m' + 2 * length r1 + 1" by simp
      then have "json_value m' cs = Some (v, r1)" by (rule v')
      with m sk q jc sk2 c r1 d ms r show ?thesis by simp
    qed
    with lr show ?thesis by simp
  qed
qed

lemma json_fuel:
  "(\<forall>s v r. json_value n s = Some (v, r) \<longrightarrow>
      length r < length s \<and>
      (\<forall>m. 2 * length s \<le> m + 2 * length r + 1 \<longrightarrow> json_value m s = Some (v, r)))
 \<and> (\<forall>s vs r. json_elements n s = Some (vs, r) \<longrightarrow>
      length r < length s \<and>
      (\<forall>m. 2 * length s \<le> m + 2 * length r \<longrightarrow> json_elements m s = Some (vs, r)))
 \<and> (\<forall>s ms r. json_members n s = Some (ms, r) \<longrightarrow>
      length r < length s \<and>
      (\<forall>m. 2 * length s \<le> m + 2 * length r \<longrightarrow> json_members m s = Some (ms, r)))"
proof (induction n)
  case 0
  show ?case by simp
next
  case (Suc n)
  then have V: "\<And>s v r. json_value n s = Some (v, r) \<Longrightarrow>
                length r < length s \<and>
                (\<forall>m. 2 * length s \<le> m + 2 * length r + 1 \<longrightarrow> json_value m s = Some (v, r))"
    and E: "\<And>s vs r. json_elements n s = Some (vs, r) \<Longrightarrow>
                length r < length s \<and>
                (\<forall>m. 2 * length s \<le> m + 2 * length r \<longrightarrow> json_elements m s = Some (vs, r))"
    and M: "\<And>s ms r. json_members n s = Some (ms, r) \<Longrightarrow>
                length r < length s \<and>
                (\<forall>m. 2 * length s \<le> m + 2 * length r \<longrightarrow> json_members m s = Some (ms, r))"
    by blast+
  show ?case
  proof (intro conjI)
    show "\<forall>s v r. json_value (Suc n) s = Some (v, r) \<longrightarrow>
      length r < length s \<and>
      (\<forall>m. 2 * length s \<le> m + 2 * length r + 1 \<longrightarrow> json_value m s = Some (v, r))"
      using json_value_step [OF E M] by blast
  next
    show "\<forall>s vs r. json_elements (Suc n) s = Some (vs, r) \<longrightarrow>
      length r < length s \<and>
      (\<forall>m. 2 * length s \<le> m + 2 * length r \<longrightarrow> json_elements m s = Some (vs, r))"
      using json_elements_step [OF V E] by blast
  next
    show "\<forall>s ms r. json_members (Suc n) s = Some (ms, r) \<longrightarrow>
      length r < length s \<and>
      (\<forall>m. 2 * length s \<le> m + 2 * length r \<longrightarrow> json_members m s = Some (ms, r))"
      using json_members_step [OF V M] by blast
  qed
qed

text \<open>
  The bound in \<open>JSON_parse\<close> is enough: a text that some bound reads as one value is read
  as that value by \<open>JSON_parse\<close>, so a \<open>SyntaxError\<close> never comes from the bound.
\<close>

lemma JSON_parse_fuel:
  assumes "json_value n text = Some (v, [])"
  shows "JSON_parse text = Inr v"
proof -
  from json_fuel [of n] assms
  have "\<forall>m. 2 * length text \<le> m + 2 * length ([] :: string) + 1 \<longrightarrow> json_value m text = Some (v, [])"
    by blast
  then have "json_value (2 * length text + 2) text = Some (v, [])"
    by (simp del: json_value.simps)
  then show ?thesis by (simp add: JSON_parse_def del: json_value.simps)
qed

lemma JSON_parse_SyntaxError_iff:
  "JSON_parse text = Inl SyntaxError \<longleftrightarrow> (\<forall>n v. json_value n text \<noteq> Some (v, []))"
proof
  assume e: "JSON_parse text = Inl SyntaxError"
  show "\<forall>n v. json_value n text \<noteq> Some (v, [])"
  proof (intro allI notI)
    fix n v assume "json_value n text = Some (v, [])"
    then have "JSON_parse text = Inr v" by (rule JSON_parse_fuel)
    with e show False by simp
  qed
next
  assume "\<forall>n v. json_value n text \<noteq> Some (v, [])"
  then show "JSON_parse text = Inl SyntaxError"
    by (auto simp: JSON_parse_def simp del: json_value.simps split: option.splits)
qed

section \<open>Properties of the URL builder\<close>

lemma strip_trailing_slash_snoc: "strip_trailing_slash (b @ ''/'') = b"
  by (simp add: strip_trailing_slash_def)

lemma strip_trailing_slash_id: "\<not> suffix ''/'' b \<Longrightarrow> strip_trailing_slash b = b"
  by (cases b rule: rev_cases) (auto simp: strip_trailing_slash_def suffix_def)

lemma strip_leading_slash_cons: "strip_leading_slash (''/'' @ e) = e"
  by (simp add: strip_leading_slash_def)

lemma strip_leading_slash_id: "\<not> prefix ''/'' e \<Longrightarrow> strip_leading_slash e = e"
  by (cases e) (auto simp: strip_leading_slash_def)

text \<open>
  C8. Let \<open>b\<close> be a base without a trailing slash and \<open>e\<close> an endpoint without a leading
  slash. Adding the single slash to either argument does not change the result: the four
  combinations all give \<open>b\<close>, then \<open>/v1/\<close>, then \<open>e\<close>.
\<close>

theorem buildTokenlayUrl_slash_invariant:
  assumes "\<not> suffix ''/'' b" and "\<not> prefix ''/'' e"
  shows "buildTokenlayUrl b e = b @ ''/v1/'' @ e
       \<and> buildTokenlayUrl (b @ ''/'') e = b @ ''/v1/'' @ e
       \<and> buildTokenlayUrl b (''/'' @ e) = b @ ''/v1/'' @ e
       \<and> buildTokenlayUrl (b @ ''/'') (''/'' @ e) = b @ ''/v1/'' @ e"
  unfolding buildTokenlayUrl_def Let_def
  using assms
  by (simp only: strip_trailing_slash_snoc strip_trailing_slash_id
        strip_leading_slash_cons strip_leading_slash_id simp_thms)

theorem buildTokenlayUrl_slash_invariant_witness:
  "buildTokenlayUrl ''https://h'' ''p'' = ''https://h/v1/p''
 \<and> buildTokenlayUrl ''https://h/'' ''p'' = ''https://h/v1/p''
 \<and> buildTokenlayUrl ''https://h'' ''/p'' = ''https://h/v1/p''
 \<and> buildTokenlayUrl ''https://h/'' ''/p'' = ''https://h/v1/p''"
  using buildTokenlayUrl_slash_invariant [of "''https://h''" "''p''"]
  by (simp add: suffix_def prefix_def)

section \<open>Properties of the header encoding\<close>

lemma fold_headers_dom:
  "dom (fold (\<lambda>(key, value) headers.
               case value of Some v \<Rightarrow> headers(p @ key \<mapsto> v) | None \<Rightarrow> headers) m h)
     = dom h \<union> {p @ k | k v. (k, Some v) \<in> set m}"
proof (induction m arbitrary: h)
  case Nil
  show ?case by simp
next
  case (Cons e m)
  obtain k x where e: "e = (k, x)" by (cases e)
  show ?case
  proof (cases x)
    case None
    with e show ?thesis by (simp add: Cons.IH)
  next
    case (Some v)
    with e show ?thesis by (auto simp: Cons.IH split: if_splits)
  qed
qed

lemma fold_headers_other:
  "k \<notin> fst ` set m \<Longrightarrow>
   fold (\<lambda>(key, value) headers.
           case value of Some v \<Rightarrow> headers(p @ key \<mapsto> v) | None \<Rightarrow> headers) m h (p @ k)
     = h (p @ k)"
proof (induction m arbitrary: h)
  case Nil
  show ?case by simp
next
  case (Cons e m)
  obtain k' x where e: "e = (k', x)" by (cases e)
  with Cons.prems have "k' \<noteq> k" and "k \<notin> fst ` set m" by auto
  with e Cons.IH show ?case by (cases x) simp_all
qed

lemma fold_headers_defined:
  "distinct (map fst m) \<Longrightarrow> (k, Some v) \<in> set m \<Longrightarrow>
   fold (\<lambda>(key, value) headers.
           case value of Some v \<Rightarrow> headers(p @ key \<mapsto> v) | None \<Rightarrow> headers) m h (p @ k)
     = Some v"
proof (induction m arbitrary: h)
  case Nil
  then show ?case by simp
next
  case (Cons e m)
  obtain k' x where e: "e = (k', x)" by (cases e)
  show ?case
  proof (cases "e = (k, Some v)")
    case True
    with Cons.prems have "k \<notin> fst ` set m" by simp
    with True show ?thesis by (simp add: fold_headers_other)
  next
    case False
    with Cons.prems have "(k, Some v) \<in> set m" and "distinct (map fst m)" by auto
    then show ?thesis by (simp add: Cons.IH)
  qed
qed

lemma metadataToHeaders_Nil: "metadataToHeaders [] = Map.empty"
  by (simp add: metadataToHeaders_def)

lemma dom_metadataToHeaders:
  "dom (metadataToHeaders m) = {''x-tokenlay-'' @ k | k v. (k, Some v) \<in> set m}"
  unfolding metadataToHeaders_def by (simp only: fold_headers_dom dom_empty Un_empty_left)

lemma metadataToHeaders_defined:
  "distinct (map fst m) \<Longrightarrow> (k, Some v) \<in> set m \<Longrightarrow>
     metadataToHeaders m (''x-tokenlay-'' @ k) = Some v"
  unfolding metadataToHeaders_def by (rule fold_headers_defined)

lemma metadataToHeaders_absent:
  assumes "distinct (map fst m)" and "(k, None) \<in> set m"
  shows "metadataToHeaders m (''x-tokenlay-'' @ k) = None"
proof (rule ccontr)
  assume "metadataToHeaders m (''x-tokenlay-'' @ k) \<noteq> None"
  then have "''x-tokenlay-'' @ k \<in> dom (metadataToHeaders m)" by (simp add: dom_def)
  then obtain k' v where "''x-tokenlay-'' @ k = ''x-tokenlay-'' @ k'" and "(k', Some v) \<in> set m"
    unfolding dom_metadataToHeaders by blast
  then have "(k, Some v) \<in> set m" by simp
  with assms show False
    by (meson eq_key_imp_eq_value option.distinct(1))
qed

text \<open>
  C9. For a metadata object (its keys are distinct): every key whose value is defined gives
  the header \<open>x-tokenlay-<key>\<close> with that value, unchanged; a key whose value is absent
  gives no header; there are no other headers; the empty object gives the empty header
  map. A header map holds one value per name, so each such header is emitted once.
\<close>

theorem metadataToHeaders_spec:
  assumes "distinct (map fst m)"
  shows "(\<forall>k v. (k, Some v) \<in> set m \<longrightarrow> metadataToHeaders m (''x-tokenlay-'' @ k) = Some v)
       \<and> (\<forall>k. (k, None) \<in> set m \<longrightarrow> metadataToHeaders m (''x-tokenlay-'' @ k) = None)
       \<and> dom (metadataToHeaders m) = {''x-tokenlay-'' @ k | k v. (k, Some v) \<in> set m}
       \<and> metadataToHeaders [] = Map.empty"
proof (intro conjI allI impI)
  fix k v
  assume "(k, Some v) \<in> set m"
  with assms show "metadataToHeaders m (''x-tokenlay-'' @ k) = Some v"
    by (rule metadataToHeaders_defined)
next
  fix k
  assume "(k, None) \<in> set m"
  with assms show "metadataToHeaders m (''x-tokenlay-'' @ k) = None"
    by (rule metadataToHeaders_absent)
next
  show "dom (metadataToHeaders m) = {''x-tokenlay-'' @ k | k v. (k, Some v) \<in> set m}"
    by (rule dom_metadataToHeaders)
next
  show "metadataToHeaders [] = Map.empty"
    by (rule metadataToHeaders_Nil)
qed

theorem metadataToHeaders_spec_witness:
  "distinct (map fst [(''a'', Some ''1''), (''b'', None)])
 \<and> metadataToHeaders [(''a'', Some ''1''), (''b'', None)] ''x-tokenlay-a'' = Some ''1''
 \<and> metadataToHeaders [(''a'', Some ''1''), (''b'', None)] ''x-tokenlay-b'' = None
 \<and> dom (metadataToHeaders [(''a'', Some ''1''), (''b'', None)]) = {''x-tokenlay-a''}"
  using metadataToHeaders_spec [of "[(''a'', Some ''1''), (''b'', None)]"]
  by auto

section \<open>Properties of validation and construction\<close>

lemma falsy_string_iff: "falsy_string a \<longleftrightarrow> a = None \<or> a = Some []"
  by (cases a) (simp_all add: falsy_string_def)

text \<open>
  C7. \<open>validateConfig\<close> fails naming \<open>tokenlayKey\<close> whenever that key is missing or empty,
  whatever the provider key is; with \<open>tokenlayKey\<close> present and non-empty and
  \<open>providerApiKey\<close> missing or empty it fails naming \<open>providerApiKey\<close>. In the constructor
  a failed validation is the constructor's failure, and the list of wrapped SDK clients
  created is unchanged: no client was created.
\<close>

theorem validateConfig_order:
  fixes c :: "'a credentials_scheme" and options :: TokenlayOpenAIOptions
  shows "(tokenlayKey c = None \<or> tokenlayKey c = Some [] \<longrightarrow>
            validateConfig c =
              Inl (Error ''tokenlayKey is required. Get your free key at https://tokenlay.com''))
       \<and> ((\<exists>k. tokenlayKey c = Some k \<and> k \<noteq> []) \<and>
            (providerApiKey c = None \<or> providerApiKey c = Some []) \<longrightarrow>
            validateConfig c =
              Inl (Error ''providerApiKey is required. This should be your OpenAI API key or other provider key.''))
       \<and> (\<forall>e. validateConfig options = Inl e \<longrightarrow>
            TokenlayOpenAI_constructor options created = (Inl e, created))"
proof (intro conjI impI allI)
  assume "tokenlayKey c = None \<or> tokenlayKey c = Some []"
  then have "falsy_string (tokenlayKey c)" by (simp add: falsy_string_iff)
  then show "validateConfig c =
      Inl (Error ''tokenlayKey is required. Get your free key at https://tokenlay.com'')"
    by (simp add: validateConfig_def)
next
  assume a: "(\<exists>k. tokenlayKey c = Some k \<and> k \<noteq> []) \<and>
      (providerApiKey c = None \<or> providerApiKey c = Some [])"
  then have "\<not> falsy_string (tokenlayKey c)" and "falsy_string (providerApiKey c)"
    by (auto simp: falsy_string_iff)
  then show "validateConfig c =
      Inl (Error ''providerApiKey is required. This should be your OpenAI API key or other provider key.'')"
    by (simp add: validateConfig_def)
next
  fix e
  assume "validateConfig options = Inl e"
  then show "TokenlayOpenAI_constructor options created = (Inl e, created)"
    by (simp add: TokenlayOpenAI_constructor_def)
qed

theorem validateConfig_order_witness:
  "validateConfig \<lparr> tokenlayKey = None, providerApiKey = None \<rparr> =
     Inl (Error ''tokenlayKey is required. Get your free key at https://tokenlay.com'')
 \<and> validateConfig \<lparr> tokenlayKey = Some ''x'', providerApiKey = None \<rparr> =
     Inl (Error ''providerApiKey is required. This should be your OpenAI API key or other provider key.'')
 \<and> TokenlayOpenAI_constructor
       \<lparr> tokenlayKey = Some [], providerApiKey = Some ''sk-test-456'',
         providerApiBase = None, tokenlayBaseUrl = None, metadata = None,
         extraHeaders = None, timeout = None, maxRetries = None \<rparr> []
     = (Inl (Error ''tokenlayKey is required. Get your free key at https://tokenlay.com''), [])"
proof -
  let ?o = "\<lparr> tokenlayKey = Some [], providerApiKey = Some ''sk-test-456'',
         providerApiBase = None, tokenlayBaseUrl = None, metadata = None,
         extraHeaders = None, timeout = None, maxRetries = None \<rparr>"
  have v: "validateConfig ?o =
      Inl (Error ''tokenlayKey is required. Get your free key at https://tokenlay.com'')"
    using validateConfig_order [of ?o ?o "[]"] by simp
  show ?thesis
    using validateConfig_order [of "\<lparr> tokenlayKey = None, providerApiKey = None \<rparr>" ?o "[]"]
      validateConfig_order [of "\<lparr> tokenlayKey = Some ''x'', providerApiKey = None \<rparr>" ?o "[]"]
      v
    by simp
qed

lemma or_number_falsy: "a = Some (Num 0) \<or> a = Some NaN \<Longrightarrow> or_number a d = d"
  by (auto simp: or_number_def falsy_number_def)

lemma or_number_None: "or_number None d = d"
  by (simp add: or_number_def falsy_number_def)

lemma validateConfig_timeout_update [simp]:
  "validateConfig (options\<lparr> timeout := t \<rparr>) = validateConfig options"
  by (simp add: validateConfig_def)

lemma validateConfig_maxRetries_update [simp]:
  "validateConfig (options\<lparr> maxRetries := t \<rparr>) = validateConfig options"
  by (simp add: validateConfig_def)

text \<open>
  C10. When construction succeeds, an explicit \<open>timeout\<close> of \<open>0\<close> (or \<open>NaN\<close>, the other
  falsy number) gives the effective timeout 60000, in the stored configuration and in the
  wrapped client, and the constructor's result is the one it gives with the field absent;
  likewise an explicit \<open>maxRetries\<close> of \<open>0\<close> gives 2.
\<close>

theorem constructor_falsy_defaults:
  assumes "TokenlayOpenAI_constructor options created = (Inr cl, created')"
  shows "(timeout options = Some (Num 0) \<or> timeout options = Some NaN \<longrightarrow>
            config_timeout (config cl) = Num 60000
          \<and> openai_timeout (openaiClient cl) = Num 60000
          \<and> TokenlayOpenAI_constructor (options\<lparr> timeout := None \<rparr>) created = (Inr cl, created'))
       \<and> (maxRetries options = Some (Num 0) \<or> maxRetries options = Some NaN \<longrightarrow>
            config_maxRetries (config cl) = Num 2
          \<and> openai_maxRetries (openaiClient cl) = Num 2
          \<and> TokenlayOpenAI_constructor (options\<lparr> maxRetries := None \<rparr>) created = (Inr cl, created'))"
proof -
  from assms have ok: "validateConfig options = Inr ()"
    by (cases "validateConfig options") (simp_all add: TokenlayOpenAI_constructor_def)
  from assms ok have cl: "cl = \<lparr> config = resolve_config options,
      openaiClient = new_OpenAI (resolve_config options) \<rparr>"
    and created': "created' = created @ [new_OpenAI (resolve_config options)]"
    by (simp_all add: TokenlayOpenAI_constructor_def Let_def)
  have t: "resolve_config (options\<lparr> timeout := None \<rparr>) = resolve_config options"
    if "timeout options = Some (Num 0) \<or> timeout options = Some NaN"
    using that by (simp add: resolve_config_def or_number_falsy or_number_None)
  have r: "resolve_config (options\<lparr> maxRetries := None \<rparr>) = resolve_config options"
    if "maxRetries options = Some (Num 0) \<or> maxRetries options = Some NaN"
    using that by (simp add: resolve_config_def or_number_falsy or_number_None)
  show ?thesis
  proof (intro conjI impI)
    assume a: "timeout options = Some (Num 0) \<or> timeout options = Some NaN"
    then show "config_timeout (config cl) = Num 60000"
      by (simp add: cl resolve_config_def or_number_falsy)
    from a show "openai_timeout (openaiClient cl) = Num 60000"
      by (simp add: cl new_OpenAI_def resolve_config_def or_number_falsy)
    from a show "TokenlayOpenAI_constructor (options\<lparr> timeout := None \<rparr>) created = (Inr cl, created')"
      by (simp add: TokenlayOpenAI_constructor_def Let_def ok t cl created')
  next
    assume a: "maxRetries options = Some (Num 0) \<or> maxRetries options = Some NaN"
    then show "config_maxRetries (config cl) = Num 2"
      by (simp add: cl resolve_config_def or_number_falsy)
    from a show "openai_maxRetries (openaiClient cl) = Num 2"
      by (simp add: cl new_OpenAI_def resolve_config_def or_number_falsy)
    from a show "TokenlayOpenAI_constructor (options\<lparr> maxRetries := None \<rparr>) created = (Inr cl, created')"
      by (simp add: TokenlayOpenAI_constructor_def Let_def ok r cl created')
  qed
qed

theorem constructor_falsy_defaults_witness:
  "map_sum id config (fst (TokenlayOpenAI_constructor
       \<lparr> tokenlayKey = Some ''tk_test_123'', providerApiKey = Some ''sk-test-456'',
         providerApiBase = None, tokenlayBaseUrl = None, metadata = None,
         extraHeaders = None, timeout = Some (Num 0), maxRetries = Some (Num 0) \<rparr> []))
   = Inr \<lparr> config_tokenlayKey = ''tk_test_123'', config_providerApiKey = ''sk-test-456'',
           config_providerApiBase = ''https://api.openai.com/v1'',
           config_tokenlayBaseUrl = ''https://api.tokenlay.com'',
           config_timeout = Num 60000, config_maxRetries = Num 2,
           config_metadata = None, config_extraHeaders = None \<rparr>"
proof -
  let ?o = "\<lparr> tokenlayKey = Some ''tk_test_123'', providerApiKey = Some ''sk-test-456'',
         providerApiBase = None, tokenlayBaseUrl = None, metadata = None,
         extraHeaders = None, timeout = Some (Num 0), maxRetries = Some (Num 0) \<rparr>"
  let ?cl = "\<lparr> config = resolve_config ?o, openaiClient = new_OpenAI (resolve_config ?o) \<rparr>"
  have c: "TokenlayOpenAI_constructor ?o [] = (Inr ?cl, [new_OpenAI (resolve_config ?o)])"
    by (simp add: TokenlayOpenAI_constructor_def validateConfig_def falsy_string_def Let_def)
  have "config_timeout (config ?cl) = Num 60000 \<and> config_maxRetries (config ?cl) = Num 2"
    using constructor_falsy_defaults [OF c] by simp
  then show ?thesis
    by (simp add: c resolve_config_def required_string_def or_string_def falsy_string_def
        DEFAULT_PROVIDER_API_BASE_def DEFAULT_TOKENLAY_BASE_URL_def)
qed

section \<open>Properties of the health check\<close>

lemma decimal_401: "decimal 401 = ''401''"
  by code_simp

lemma test_client_config:
  "config_tokenlayBaseUrl (config test_client) = ''https://api.tokenlay.com''
 \<and> config_tokenlayKey (config test_client) = ''tk_test_123''"
  by (simp add: test_client_def test_options_def resolve_config_def or_string_def
      falsy_string_def required_string_def DEFAULT_TOKENLAY_BASE_URL_def)

text \<open>
  C5. \<open>healthCheck\<close> always returns a result. Where the response's \<open>ok\<close> is as the Fetch
  standard defines it (true exactly for a status from 200 to 299), the result is
  \<open>{status: ok}\<close> on a 2xx status and \<open>{status: error}\<close> with the message
  \<open>HTTP <status>: <statusText>\<close> on any other; when the request is rejected with an
  \<open>Error\<close>, the result is \<open>{status: error}\<close> with that error's message.
\<close>

theorem healthCheck_never_raises:
  "(\<exists>r. healthCheck fetch cl = Inr r)
 \<and> (\<forall>resp. fetch (healthCheck_request cl) = Resolved resp
        \<and> ok resp = (200 \<le> status resp \<and> status resp \<le> 299)
        \<and> 200 \<le> status resp \<and> status resp \<le> 299 \<longrightarrow>
        healthCheck fetch cl = Inr \<lparr> health_status = ''ok'', message = None \<rparr>)
 \<and> (\<forall>resp. fetch (healthCheck_request cl) = Resolved resp
        \<and> ok resp = (200 \<le> status resp \<and> status resp \<le> 299)
        \<and> \<not> (200 \<le> status resp \<and> status resp \<le> 299) \<longrightarrow>
        healthCheck fetch cl =
          Inr \<lparr> health_status = ''error'',
                message = Some (''HTTP '' @ decimal (status resp) @ '': '' @ statusText resp) \<rparr>)
 \<and> (\<forall>m. fetch (healthCheck_request cl) = Rejected (ErrorInstance m) \<longrightarrow>
        healthCheck fetch cl = Inr \<lparr> health_status = ''error'', message = Some m \<rparr>)"
proof (intro conjI allI impI)
  show "\<exists>r. healthCheck fetch cl = Inr r"
    by (cases "healthCheck_try fetch cl") (simp_all add: healthCheck_def)
next
  fix resp
  assume "fetch (healthCheck_request cl) = Resolved resp
      \<and> ok resp = (200 \<le> status resp \<and> status resp \<le> 299)
      \<and> 200 \<le> status resp \<and> status resp \<le> 299"
  then show "healthCheck fetch cl = Inr \<lparr> health_status = ''ok'', message = None \<rparr>"
    by (simp add: healthCheck_def healthCheck_try_def)
next
  fix resp
  assume "fetch (healthCheck_request cl) = Resolved resp
      \<and> ok resp = (200 \<le> status resp \<and> status resp \<le> 299)
      \<and> \<not> (200 \<le> status resp \<and> status resp \<le> 299)"
  then have "fetch (healthCheck_request cl) = Resolved resp" and "\<not> ok resp"
    by auto
  then show "healthCheck fetch cl =
      Inr \<lparr> health_status = ''error'',
            message = Some (''HTTP '' @ decimal (status resp) @ '': '' @ statusText resp) \<rparr>"
    by (simp add: healthCheck_def healthCheck_try_def)
next
  fix m
  assume "fetch (healthCheck_request cl) = Rejected (ErrorInstance m)"
  then show "healthCheck fetch cl = Inr \<lparr> health_status = ''error'', message = Some m \<rparr>"
    by (simp add: healthCheck_def healthCheck_try_def healthCheck_catch_def)
qed

theorem healthCheck_never_raises_witness:
  "healthCheck (\<lambda>_. Resolved \<lparr> ok = True, status = 200, statusText = ''OK'' \<rparr>) test_client
     = Inr \<lparr> health_status = ''ok'', message = None \<rparr>
 \<and> healthCheck (\<lambda>_. Resolved \<lparr> ok = False, status = 401, statusText = ''Unauthorized'' \<rparr>) test_client
     = Inr \<lparr> health_status = ''error'', message = Some ''HTTP 401: Unauthorized'' \<rparr>
 \<and> healthCheck (\<lambda>_. Rejected (ErrorInstance ''Network error'')) test_client
     = Inr \<lparr> health_status = ''error'', message = Some ''Network error'' \<rparr>"
  using
    healthCheck_never_raises
      [of "\<lambda>_. Resolved \<lparr> ok = True, status = 200, statusText = ''OK'' \<rparr>" test_client]
    healthCheck_never_raises
      [of "\<lambda>_. Resolved \<lparr> ok = False, status = 401, statusText = ''Unauthorized'' \<rparr>" test_client]
    healthCheck_never_raises
      [of "\<lambda>_. Rejected (ErrorInstance ''Network error'')" test_client]
  by (simp add: decimal_401)

text \<open>
  C3. The request of \<open>healthCheck\<close>: a \<open>GET\<close> with the header
  \<open>Authorization: Bearer <tokenlayKey>\<close>, to the base URL without its trailing slash
  followed by \<open>/v1/health\<close>. For the client of the tests (the default base URL) that is
  \<open>https://api.tokenlay.com/v1/health\<close>, not \<open>https://api.tokenlay.com/health\<close>.
\<close>

theorem healthCheck_request_path:
  "url (healthCheck_request cl) = strip_trailing_slash (config_tokenlayBaseUrl (config cl)) @ ''/v1/health''
 \<and> http_method (healthCheck_request cl) = ''GET''
 \<and> request_headers (healthCheck_request cl) ''Authorization'' = Some (''Bearer '' @ config_tokenlayKey (config cl))
 \<and> url (healthCheck_request test_client) = ''https://api.tokenlay.com/v1/health''
 \<and> url (healthCheck_request test_client) \<noteq> config_tokenlayBaseUrl (config test_client) @ ''/health''"
  by (simp add: healthCheck_request_def buildTokenlayUrl_def strip_leading_slash_def
      strip_trailing_slash_def test_client_config)

section \<open>Properties of the header decoding and of the chat completion call\<close>

lemma or_string_Some: "v \<noteq> [] \<Longrightarrow> or_string (Some v) d = v"
  by (simp add: or_string_def falsy_string_def)

lemma or_string_falsy: "a = None \<or> a = Some [] \<Longrightarrow> or_string a d = d"
  by (auto simp: or_string_def falsy_string_def)

text \<open>The object that is returned when \<open>JSON.parse\<close> is not called or does not throw.\<close>

lemma parseTokenlayHeaders_cases:
  "parseTokenlayHeaders hs = Inl SyntaxError \<and>
     (\<exists>v. hs ''x-tokenlay-warnings'' = Some v \<and> v \<noteq> [] \<and> JSON_parse v = Inl SyntaxError)
   \<or> (\<exists>w. parseTokenlayHeaders hs =
         Inr [(''ruleId'', string_or_undefined (hs ''x-tokenlay-rule-id'')),
              (''ruleAction'', VString (or_string (hs ''x-tokenlay-rule-action'') ''allow'')),
              (''limitExceeded'', VBool (hs ''x-tokenlay-limit-exceeded'' = Some ''true'')),
              (''cost'', VNumber (parseFloat (or_string (hs ''x-tokenlay-cost'') ''0''))),
              (''tokensUsed'', VNumber (parseInt (or_string (hs ''x-tokenlay-tokens-used'') ''0''))),
              (''inputTokens'', VNumber (parseInt (or_string (hs ''x-tokenlay-input-tokens'') ''0''))),
              (''outputTokens'', VNumber (parseInt (or_string (hs ''x-tokenlay-output-tokens'') ''0''))),
              (''duration'', VNumber (parseInt (or_string (hs ''x-tokenlay-duration'') ''0''))),
              (''warnings'', w)]
        \<and> (w = VUndefined \<and> (hs ''x-tokenlay-warnings'' = None \<or> hs ''x-tokenlay-warnings'' = Some [])
           \<or> (\<exists>v j. hs ''x-tokenlay-warnings'' = Some v \<and> v \<noteq> [] \<and> JSON_parse v = Inr j \<and> w = VJson j)))"
proof (cases "hs ''x-tokenlay-warnings''")
  case None
  then show ?thesis
    by (simp add: parseTokenlayHeaders_def falsy_string_def)
next
  case (Some v)
  show ?thesis
  proof (cases "v = []")
    case True
    with Some show ?thesis
      by (simp add: parseTokenlayHeaders_def falsy_string_def)
  next
    case False
    show ?thesis
    proof (cases "JSON_parse v")
      case (Inl e)
      then have "JSON_parse v = Inl SyntaxError" by (cases e) simp
      with Some False show ?thesis
        by (simp add: parseTokenlayHeaders_def falsy_string_def or_string_def)
    next
      case (Inr j)
      with Some False show ?thesis
        by (simp add: parseTokenlayHeaders_def falsy_string_def or_string_def)
    qed
  qed
qed

lemma parseTokenlayHeaders_keys:
  "parseTokenlayHeaders hs = Inr obj \<Longrightarrow>
   map fst obj = [''ruleId'', ''ruleAction'', ''limitExceeded'', ''cost'', ''tokensUsed'',
                  ''inputTokens'', ''outputTokens'', ''duration'', ''warnings'']"
  using parseTokenlayHeaders_cases [of hs] by auto

lemma parseTokenlayHeaders_ruleAction:
  "parseTokenlayHeaders hs = Inr obj \<Longrightarrow>
   property obj ''ruleAction'' = VString (or_string (hs ''x-tokenlay-rule-action'') ''allow'')"
  using parseTokenlayHeaders_cases [of hs] by (auto simp: property_def)

lemma parseTokenlayHeaders_warnings:
  "parseTokenlayHeaders hs = Inr obj \<Longrightarrow>
   hs ''x-tokenlay-warnings'' = None \<or> hs ''x-tokenlay-warnings'' = Some [] \<Longrightarrow>
   property obj ''warnings'' = VUndefined"
  using parseTokenlayHeaders_cases [of hs] by (auto simp: property_def)

lemma parseTokenlayHeaders_succeeds:
  "hs ''x-tokenlay-warnings'' = None \<or> hs ''x-tokenlay-warnings'' = Some [] \<Longrightarrow>
   \<exists>obj. parseTokenlayHeaders hs = Inr obj"
  using parseTokenlayHeaders_cases [of hs] by auto

lemma parseTokenlayHeaders_fails:
  "hs ''x-tokenlay-warnings'' = Some v \<Longrightarrow> v \<noteq> [] \<Longrightarrow> JSON_parse v = Inl SyntaxError \<Longrightarrow>
   parseTokenlayHeaders hs = Inl SyntaxError"
  using parseTokenlayHeaders_cases [of hs] by auto

lemma JSON_parse_empty: "JSON_parse [] = Inl SyntaxError"
  by code_simp

lemma JSON_parse_not_json: "JSON_parse ''not-json'' = Inl SyntaxError"
  by code_simp

text \<open>
  C4 as stated fails: the cast is not a check, so a header value outside the closed set
  is returned as it is. Here the header is \<open>deny\<close>.
\<close>

theorem ruleAction_closed_set_counterexample:
  "map_sum id (\<lambda>obj. property obj ''ruleAction'')
     (parseTokenlayHeaders [''x-tokenlay-rule-action'' \<mapsto> ''deny'']) = Inr (VString ''deny'')
 \<and> ''deny'' \<notin> {''allow'', ''block'', ''warn'', ''queue''}"
  by (simp add: parseTokenlayHeaders_def falsy_string_def or_string_def property_def)

text \<open>
  C4, amended. In the record the decode returns, \<open>ruleAction\<close> is the value of the
  \<open>x-tokenlay-rule-action\<close> header when that header is present and not empty, and \<open>allow\<close>
  when it is absent or empty. So it is \<open>allow\<close> when the header is absent, and a member of
  the closed set whenever the header's value is one.
\<close>

theorem ruleAction_spec:
  assumes "parseTokenlayHeaders hs = Inr obj"
  shows "property obj ''ruleAction'' =
           VString (case hs ''x-tokenlay-rule-action'' of
                      None \<Rightarrow> ''allow''
                    | Some v \<Rightarrow> if v = [] then ''allow'' else v)
       \<and> (hs ''x-tokenlay-rule-action'' = None \<longrightarrow> property obj ''ruleAction'' = VString ''allow'')
       \<and> (\<forall>v. hs ''x-tokenlay-rule-action'' = Some v
              \<and> v \<in> {''allow'', ''block'', ''warn'', ''queue''} \<longrightarrow>
              property obj ''ruleAction'' = VString v)"
proof -
  have r: "property obj ''ruleAction'' = VString (or_string (hs ''x-tokenlay-rule-action'') ''allow'')"
    using assms by (rule parseTokenlayHeaders_ruleAction)
  show ?thesis
  proof (intro conjI allI impI)
    show "property obj ''ruleAction'' =
           VString (case hs ''x-tokenlay-rule-action'' of
                      None \<Rightarrow> ''allow''
                    | Some v \<Rightarrow> if v = [] then ''allow'' else v)"
      unfolding r by (cases "hs ''x-tokenlay-rule-action''") (simp_all add: or_string_def falsy_string_def)
  next
    assume "hs ''x-tokenlay-rule-action'' = None"
    then show "property obj ''ruleAction'' = VString ''allow''"
      unfolding r by (simp add: or_string_falsy)
  next
    fix v
    assume a: "hs ''x-tokenlay-rule-action'' = Some v \<and> v \<in> {''allow'', ''block'', ''warn'', ''queue''}"
    then have "v \<noteq> []" by auto
    with a show "property obj ''ruleAction'' = VString v"
      unfolding r by (simp add: or_string_Some)
  qed
qed

theorem ruleAction_spec_witness:
  "(\<exists>obj. parseTokenlayHeaders Map.empty = Inr obj \<and> property obj ''ruleAction'' = VString ''allow'')
 \<and> (\<exists>obj. parseTokenlayHeaders [''x-tokenlay-rule-action'' \<mapsto> ''block''] = Inr obj
        \<and> property obj ''ruleAction'' = VString ''block'')"
proof -
  obtain o1 where o1: "parseTokenlayHeaders Map.empty = Inr o1"
    using parseTokenlayHeaders_succeeds [of Map.empty] by auto
  obtain o2 where o2: "parseTokenlayHeaders [''x-tokenlay-rule-action'' \<mapsto> ''block''] = Inr o2"
    using parseTokenlayHeaders_succeeds [of "[''x-tokenlay-rule-action'' \<mapsto> ''block'']"] by auto
  have "property o1 ''ruleAction'' = VString ''allow''"
    using ruleAction_spec [OF o1] by simp
  moreover have "property o2 ''ruleAction'' = VString ''block''"
    using ruleAction_spec [OF o2] by simp
  ultimately show ?thesis using o1 o2 by simp
qed

text \<open>
  C6 as stated fails: the empty string is not valid JSON, but an empty header value is
  falsy, so \<open>JSON.parse\<close> is not called and \<open>warnings\<close> is \<open>undefined\<close>.
\<close>

theorem warnings_empty_counterexample:
  "JSON_parse [] = Inl SyntaxError
 \<and> map_sum id (\<lambda>obj. property obj ''warnings'')
     (parseTokenlayHeaders [''x-tokenlay-warnings'' \<mapsto> []]) = Inr VUndefined"
  by (simp add: JSON_parse_empty parseTokenlayHeaders_def falsy_string_def property_def)

text \<open>
  C6, amended. When the \<open>x-tokenlay-warnings\<close> header is present, not empty and not valid
  JSON, the decode fails with the parse error of \<open>JSON.parse\<close>. When the header is present
  and empty, the decode succeeds and \<open>warnings\<close> is \<open>undefined\<close>, as for an absent header.
\<close>

theorem warnings_invalid_json_fails:
  "(\<forall>v. hs ''x-tokenlay-warnings'' = Some v \<and> v \<noteq> [] \<and> JSON_parse v = Inl SyntaxError \<longrightarrow>
        parseTokenlayHeaders hs = Inl SyntaxError)
 \<and> (hs ''x-tokenlay-warnings'' = Some [] \<longrightarrow>
        (\<exists>obj. parseTokenlayHeaders hs = Inr obj \<and> property obj ''warnings'' = VUndefined))"
proof (intro conjI allI impI)
  fix v
  assume "hs ''x-tokenlay-warnings'' = Some v \<and> v \<noteq> [] \<and> JSON_parse v = Inl SyntaxError"
  then show "parseTokenlayHeaders hs = Inl SyntaxError"
    by (simp add: parseTokenlayHeaders_fails)
next
  assume e: "hs ''x-tokenlay-warnings'' = Some []"
  then obtain obj where obj: "parseTokenlayHeaders hs = Inr obj"
    using parseTokenlayHeaders_succeeds [of hs] by auto
  with e have "property obj ''warnings'' = VUndefined"
    by (simp add: parseTokenlayHeaders_warnings)
  with obj show "\<exists>obj. parseTokenlayHeaders hs = Inr obj \<and> property obj ''warnings'' = VUndefined"
    by simp
qed

theorem warnings_invalid_json_fails_witness:
  "JSON_parse ''not-json'' = Inl SyntaxError
 \<and> parseTokenlayHeaders [''x-tokenlay-warnings'' \<mapsto> ''not-json''] = Inl SyntaxError"
  using warnings_invalid_json_fails [of "[''x-tokenlay-warnings'' \<mapsto> ''not-json'']"]
    JSON_parse_not_json
  by simp

text \<open>
  C1 as stated fails: the decode reads nine fixed header names and returns a record with
  nine fixed keys. Encoding \<open>{userId: "user_123"}\<close> and decoding the result gives the nine
  keys, and \<open>userId\<close> is not one of them.
\<close>

theorem roundtrip_keys_counterexample:
  "map_sum id (map fst)
     (parseTokenlayHeaders (metadataToHeaders [(''userId'', Some ''user_123'')]))
   = Inr [''ruleId'', ''ruleAction'', ''limitExceeded'', ''cost'', ''tokensUsed'',
          ''inputTokens'', ''outputTokens'', ''duration'', ''warnings'']
 \<and> ''userId'' \<notin> set [''ruleId'', ''ruleAction'', ''limitExceeded'', ''cost'', ''tokensUsed'',
          ''inputTokens'', ''outputTokens'', ''duration'', ''warnings'']"
  by (simp add: parseTokenlayHeaders_def metadataToHeaders_def falsy_string_def)

text \<open>
  C1, amended. Whatever the keys of the metadata map, a decode of its encoding that
  returns a record returns one with the nine keys of the response schema, in this order;
  and the decode does return a record when the map has no key \<open>warnings\<close>.
\<close>

theorem roundtrip_fixed_schema:
  "(\<forall>obj. parseTokenlayHeaders (metadataToHeaders m) = Inr obj \<longrightarrow>
        map fst obj = [''ruleId'', ''ruleAction'', ''limitExceeded'', ''cost'', ''tokensUsed'',
                       ''inputTokens'', ''outputTokens'', ''duration'', ''warnings''])
 \<and> (''warnings'' \<notin> fst ` set m \<longrightarrow>
        (\<exists>obj. parseTokenlayHeaders (metadataToHeaders m) = Inr obj))"
proof (intro conjI allI impI)
  fix obj
  assume "parseTokenlayHeaders (metadataToHeaders m) = Inr obj"
  then show "map fst obj = [''ruleId'', ''ruleAction'', ''limitExceeded'', ''cost'', ''tokensUsed'',
                       ''inputTokens'', ''outputTokens'', ''duration'', ''warnings'']"
    by (rule parseTokenlayHeaders_keys)
next
  assume n: "''warnings'' \<notin> fst ` set m"
  have "''x-tokenlay-'' @ ''warnings'' \<notin> dom (metadataToHeaders m)"
  proof
    assume "''x-tokenlay-'' @ ''warnings'' \<in> dom (metadataToHeaders m)"
    then obtain k v where "''x-tokenlay-'' @ ''warnings'' = ''x-tokenlay-'' @ k" and "(k, Some v) \<in> set m"
      unfolding dom_metadataToHeaders by blast
    then have "(''warnings'', Some v) \<in> set m" by (simp only: same_append_eq)
    with n show False by force
  qed
  then have "metadataToHeaders m ''x-tokenlay-warnings'' = None"
    by (simp add: dom_def)
  then show "\<exists>obj. parseTokenlayHeaders (metadataToHeaders m) = Inr obj"
    by (simp add: parseTokenlayHeaders_succeeds)
qed

theorem roundtrip_fixed_schema_witness:
  "\<exists>obj. parseTokenlayHeaders (metadataToHeaders [(''tier'', Some ''pro'')]) = Inr obj
       \<and> map fst obj = [''ruleId'', ''ruleAction'', ''limitExceeded'', ''cost'', ''tokensUsed'',
                       ''inputTokens'', ''outputTokens'', ''duration'', ''warnings'']"
  using roundtrip_fixed_schema [of "[(''tier'', Some ''pro'')]"]
  by auto

lemma parseFloat_test_cost: "parseFloat ''0.00018'' = Num (18 / 100000)"
  by code_simp

lemma parseInt_test_tokens: "parseInt ''18'' = Num 18"
  by code_simp

lemma parseInt_zero: "parseInt ''0'' = Num 0"
  by code_simp

lemma parseFloat_zero: "parseFloat ''0'' = Num 0"
  by code_simp

text \<open>
  What \<open>create\<close> returns when the wrapped call resolves: the response object itself, with
  the fixed record stored under \<open>_tokenlay\<close> exactly when \<open>_request_id\<close> is a non-empty
  string. The response headers are not read.
\<close>

lemma chat_completions_create_resolved:
  assumes "wrapped (openaiClient cl) (openaiParams params) (buildRequestHeaders (params_metadata params))
             = Inr reply"
  shows "chat_completions_create wrapped cl params =
           Inr (if request_id (reply_object reply) = None \<or> request_id (reply_object reply) = Some []
                then reply_object reply
                else (reply_object reply)\<lparr> tokenlay := Some placeholder_metadata \<rparr>)"
  using assms
  by (cases "request_id (reply_object reply)")
     (simp_all add: chat_completions_create_def Let_def falsy_string_def)

lemma getTokenlayMetadata_absent: "tokenlay response = None \<Longrightarrow> getTokenlayMetadata response = None"
  by (simp add: getTokenlayMetadata_def)

text \<open>With no headers at all the decode agrees with the fixed record on its eight keys.\<close>

lemma placeholder_is_decode_of_no_headers:
  "parseTokenlayHeaders Map.empty = Inr (placeholder_metadata @ [(''warnings'', VUndefined)])"
  by (simp add: parseTokenlayHeaders_def placeholder_metadata_def falsy_string_def or_string_def
      string_or_undefined_def parseInt_zero parseFloat_zero)

text \<open>
  C2. The call of tests/client.test.ts: the mocked response carries
  \<open>_request_id: 'req_test_123'\<close>. Let the proxy's response headers give the rule
  \<open>test-rule\<close>, the cost \<open>0.00018\<close> and 18 tokens, which is what the test expects to read
  back. \<open>getTokenlayMetadata\<close> on the returned response gives the fixed record (no rule,
  cost 0, no tokens), not the decode of the headers.
\<close>

theorem create_attaches_placeholder:
  "map_sum id getTokenlayMetadata
     (chat_completions_create
        (\<lambda>_ _ _. Inr \<lparr> reply_headers = [''x-tokenlay-rule-id'' \<mapsto> ''test-rule'',
                                         ''x-tokenlay-cost'' \<mapsto> ''0.00018'',
                                         ''x-tokenlay-tokens-used'' \<mapsto> ''18''],
                         reply_object = test_response \<rparr>)
        test_client \<lparr> params_metadata = None, openaiParams = () \<rparr>)
     = (Inr (Some placeholder_metadata) :: unit + js_object option)
 \<and> (property placeholder_metadata ''ruleId'', property placeholder_metadata ''cost'',
    property placeholder_metadata ''tokensUsed'') = (VUndefined, VNumber (Num 0), VNumber (Num 0))
 \<and> map_sum id (\<lambda>obj. (property obj ''ruleId'', property obj ''cost'', property obj ''tokensUsed''))
     (parseTokenlayHeaders [''x-tokenlay-rule-id'' \<mapsto> ''test-rule'',
                            ''x-tokenlay-cost'' \<mapsto> ''0.00018'',
                            ''x-tokenlay-tokens-used'' \<mapsto> ''18''])
     = Inr (VString ''test-rule'', VNumber (Num (18 / 100000)), VNumber (Num 18))"
proof (intro conjI)
  show "map_sum id getTokenlayMetadata
     (chat_completions_create
        (\<lambda>_ _ _. Inr \<lparr> reply_headers = [''x-tokenlay-rule-id'' \<mapsto> ''test-rule'',
                                         ''x-tokenlay-cost'' \<mapsto> ''0.00018'',
                                         ''x-tokenlay-tokens-used'' \<mapsto> ''18''],
                         reply_object = test_response \<rparr>)
        test_client \<lparr> params_metadata = None, openaiParams = () \<rparr>)
     = (Inr (Some placeholder_metadata) :: unit + js_object option)"
    by (simp add: chat_completions_create_def Let_def test_response_def falsy_string_def
        getTokenlayMetadata_def)
next
  show "(property placeholder_metadata ''ruleId'', property placeholder_metadata ''cost'',
    property placeholder_metadata ''tokensUsed'') = (VUndefined, VNumber (Num 0), VNumber (Num 0))"
    by (simp add: placeholder_metadata_def property_def)
next
  show "map_sum id (\<lambda>obj. (property obj ''ruleId'', property obj ''cost'', property obj ''tokensUsed''))
     (parseTokenlayHeaders [''x-tokenlay-rule-id'' \<mapsto> ''test-rule'',
                            ''x-tokenlay-cost'' \<mapsto> ''0.00018'',
                            ''x-tokenlay-tokens-used'' \<mapsto> ''18''])
     = Inr (VString ''test-rule'', VNumber (Num (18 / 100000)), VNumber (Num 18))"
    by (simp add: parseTokenlayHeaders_def falsy_string_def or_string_def property_def
        string_or_undefined_def parseFloat_test_cost parseInt_test_tokens)
qed

end
